theory Spec2Isabelle
  imports Main "HOL-Library.AList" "HOL-Library.Char_ord" "HOL-Library.List_Lexorder"
begin

section \<open>Constants of stringutil.go\<close>

text \<open>
  Go strings are byte sequences and so are HOL strings (\<open>char list\<close>, one \<open>char\<close> per
  byte). \<open>sort.Strings\<close> orders strings bytewise and lexicographically, which is the order
  that \<open>Char_ord\<close> and \<open>List_Lexorder\<close> put on \<open>string\<close>.
\<close>

definition DEFAULT_TIME_LAYOUT :: string where
  "DEFAULT_TIME_LAYOUT = ''2006-01-02 3:04:05.000pm Z07''"

definition INFO :: string where "INFO = ''INFO''"
definition WARN :: string where "WARN = ''WARN''"
definition ERROR :: string where "ERROR = ''ERROR''"

definition LEVEL_KEY :: string where "LEVEL_KEY = ''level''"
definition TIME_KEY :: string where "TIME_KEY = ''time''"
definition MSG_KEY :: string where "MSG_KEY = ''msgs''"
definition ERR_KEY :: string where "ERR_KEY = ''error''"

definition OC :: string where "OC = ''{''"
definition CC :: string where "CC = ''}''"
definition OB :: string where "OB = ''[''"
definition CB :: string where "CB = '']''"
definition QM :: string where "QM = [CHR 0x22]"

section \<open>The document model of structs.go\<close>

text \<open>
  \<open>JPair\<close> and \<open>JArray\<close> are the structs of the source. \<open>ByteVals\<close> is a slice of byte
  slices, here a list of strings. A \<open>JDict\<close> wraps a Go map from keys to objects; the map
  is an association list, read with \<open>map_of\<close>, written with \<open>AList.update\<close> and shrunk
  with \<open>AList.delete\<close>, which keep the keys distinct. The order of the list stands for one
  of the orders in which Go may iterate over the map. A \<open>JGroup\<close> is the constructor
  \<open>Obj_JGroup\<close> with its key and its dictionary. The interface \<open>JObject\<close> is the closed
  sum of the three struct types that implement it in the package; pointers to them, nil
  and implementations from outside the package are not modelled. The model copies values
  where Go shares the map of a dictionary between the copies of a group.
\<close>

datatype JPair = JPair (pair_Key: string) (Val: string)

datatype JArray = JArray (array_Key: string) (Vals: "string list") (ByteVals: "string list")

datatype JObject =
    Obj_JPair JPair
  | Obj_JArray JArray
  | Obj_JGroup string "(string \<times> JObject) list"

type_synonym JDict = "(string \<times> JObject) list"

definition NewJDict :: JDict where
  "NewJDict = []"

fun GetKey :: "JObject \<Rightarrow> string" where
  "GetKey (Obj_JPair p) = pair_Key p"
| "GetKey (Obj_JArray a) = array_Key a"
| "GetKey (Obj_JGroup key dict) = key"

definition JDict_Set :: "JObject \<Rightarrow> JDict \<Rightarrow> JDict" where
  "JDict_Set elem d = AList.update (GetKey elem) elem d"

definition JDict_SetPair :: "string \<Rightarrow> string \<Rightarrow> JDict \<Rightarrow> JDict" where
  "JDict_SetPair key val d =
     (let pair = Obj_JPair (JPair key val) in AList.update (GetKey pair) pair d)"

definition NewJGroup :: "string \<Rightarrow> JDict \<Rightarrow> JObject" where
  "NewJGroup key dict = Obj_JGroup key dict"

definition NewJArray :: "string \<Rightarrow> JArray" where
  "NewJArray key = JArray key [] []"

definition NewJPair :: "string \<Rightarrow> string \<Rightarrow> JPair" where
  "NewJPair key val = JPair key val"

subsection \<open>The escaper\<close>

text \<open>
  \<open>WriteEscaped\<close> walks the bytes of \<open>s\<close> and appends to the buffer \<open>b\<close>: a backslash
  (byte 0x5C) before each double quote (byte 0x22), then the byte itself.
\<close>

fun WriteEscaped :: "string \<Rightarrow> string \<Rightarrow> string" where
  "WriteEscaped b [] = b"
| "WriteEscaped b (c # s) =
     WriteEscaped ((if c = CHR 0x22 then b @ [CHR 0x5C] else b) @ [c]) s"

definition MakeSafe :: "string \<Rightarrow> string" where
  "MakeSafe s = WriteEscaped [] s"

text \<open>The loop \<open>for _, arg := range args\<close> of \<open>AddSafe\<close>.\<close>

fun WriteEscaped_args :: "string \<Rightarrow> string list \<Rightarrow> string" where
  "WriteEscaped_args buf [] = buf"
| "WriteEscaped_args buf (arg # args) = WriteEscaped_args (WriteEscaped buf arg) args"

definition AddSafe :: "string \<Rightarrow> string list \<Rightarrow> JArray \<Rightarrow> JArray" where
  "AddSafe format args a =
     (let buf = WriteEscaped [] format;
          buf = WriteEscaped_args buf args
      in JArray (array_Key a) (Vals a) (ByteVals a @ [buf]))"

definition Add :: "string \<Rightarrow> JArray \<Rightarrow> JArray" where
  "Add val a = JArray (array_Key a) (Vals a @ [val]) (ByteVals a)"

section \<open>The serializer of stringutil.go\<close>

text \<open>
  A Go panic is a value of the model: every function that can panic returns
  \<open>panic + 'a\<close>, with \<open>Inl\<close> the panic. \<open>CannotParse\<close> is \<open>panic("cannot parse")\<close> of
  \<open>wrap\<close>; \<open>SliceBounds hi\<close> is the runtime error of a slice expression \<open>s[:hi]\<close> whose
  bound is out of range; \<open>NilDereference\<close> is a method call on a nil interface value.
  \<open>panic_text\<close> is the text that \<open>fmt\<close> prints for the panic value (the bounds this
  package can reach are \<open>-2\<close> and \<open>-1\<close>).
\<close>

datatype panic = CannotParse | SliceBounds int | NilDereference

definition panic_text :: "panic \<Rightarrow> string" where
  "panic_text e = (case e of
      CannotParse \<Rightarrow> ''cannot parse''
    | SliceBounds hi \<Rightarrow> ''runtime error: slice bounds out of range [:''
        @ (if hi = - 1 then ''-1'' else ''-2'') @ '']''
    | NilDereference \<Rightarrow> ''runtime error: invalid memory address or nil pointer dereference'')"

text \<open>\<open>wrap\<close> is variadic in its tokens: one token goes on both sides, two go left and right.\<close>

fun wrap :: "string \<Rightarrow> string list \<Rightarrow> panic + string" where
  "wrap s [t0] = Inr (t0 @ s @ t0)"
| "wrap s [t0, t1] = Inr (t0 @ s @ t1)"
| "wrap s tokens = Inl CannotParse"

text \<open>The slice expression \<open>s[:hi]\<close> of Go, which panics when \<open>hi\<close> is out of range.\<close>

definition slice_to :: "string \<Rightarrow> int \<Rightarrow> panic + string" where
  "slice_to s hi =
     (if hi < 0 \<or> int (length s) < hi then Inl (SliceBounds hi) else Inr (take (nat hi) s))"

text \<open>
  \<open>Sprintf_v_v a b\<close> is \<open>fmt.Sprintf("%v: %v", a, b)\<close> on two strings. When an operand of
  \<open>%v\<close> is a \<open>Stringer\<close>, \<open>fmt\<close> calls its \<open>String\<close> method and recovers from a panic of
  that call, printing the panic value instead: \<open>fmt_Stringer\<close> takes the result of the
  \<open>String\<close> call and gives the text that \<open>fmt\<close> prints.
\<close>

definition Sprintf_v_v :: "string \<Rightarrow> string \<Rightarrow> string" where
  "Sprintf_v_v a b = a @ '': '' @ b"

definition fmt_Stringer :: "panic + string \<Rightarrow> string" where
  "fmt_Stringer r = (case r of
      Inr s \<Rightarrow> s
    | Inl e \<Rightarrow> ''%!v(PANIC=String method: '' @ panic_text e @ '')'')"

definition JPair_String :: "JPair \<Rightarrow> panic + string" where
  "JPair_String p =
     (case wrap (pair_Key p) [QM] of Inl e \<Rightarrow> Inl e | Inr k \<Rightarrow>
      (case wrap (Val p) [QM] of Inl e \<Rightarrow> Inl e | Inr v \<Rightarrow> Inr (Sprintf_v_v k v)))"

subsection \<open>\<open>JArray.String\<close>, the revision that writes both buckets\<close>

text \<open>
  The repository holds two revisions of the serializer file. They agree on everything but
  \<open>JArray.String\<close> (and on \<open>wrap\<close> taking \<open>any\<close> or \<open>string\<close>, the same on strings). The
  revision with the string builder writes \<open>Vals\<close> and then \<open>ByteVals\<close>, the bucket that
  \<open>AddSafe\<close> of structs.go fills; it is the one the rest of this development uses. Each
  of its two iterations carries the flag \<open>first\<close> and the builder \<open>sb\<close>.
\<close>

fun Vals_loop :: "bool \<Rightarrow> string \<Rightarrow> string list \<Rightarrow> panic + bool \<times> string" where
  "Vals_loop first sb [] = Inr (first, sb)"
| "Vals_loop first sb (val # vals) =
     (if first then
        (case wrap val [QM] of Inl e \<Rightarrow> Inl e | Inr q \<Rightarrow> Vals_loop False (sb @ q) vals)
      else
        (case wrap val [QM] of Inl e \<Rightarrow> Inl e
         | Inr q \<Rightarrow> Vals_loop False (sb @ '', '' @ q) vals))"

fun ByteVals_loop :: "bool \<Rightarrow> string \<Rightarrow> string list \<Rightarrow> bool \<times> string" where
  "ByteVals_loop first sb [] = (first, sb)"
| "ByteVals_loop first sb (b # bs) =
     (if first then ByteVals_loop False (sb @ QM @ b @ QM) bs
      else ByteVals_loop False (sb @ '', '' @ QM @ b @ QM) bs)"

definition JArray_String :: "JArray \<Rightarrow> panic + string" where
  "JArray_String a =
     (case wrap (array_Key a) [QM] of Inl e \<Rightarrow> Inl e | Inr k \<Rightarrow>
      (let sb = k @ '': '' @ OB in
       case Vals_loop True sb (Vals a) of Inl e \<Rightarrow> Inl e | Inr (first, sb) \<Rightarrow>
        (let (first, sb) =
           (if length (ByteVals a) > 0 then ByteVals_loop first sb (ByteVals a)
            else (first, sb))
         in Inr (sb @ CB))))"

subsection \<open>\<open>JArray.String\<close>, the revision that trims the separator\<close>

text \<open>
  The other revision appends \<open>", "\<close> after every element of \<open>Vals\<close>, cuts the last two
  bytes off and never reads \<open>ByteVals\<close>.
\<close>

fun arr_loop :: "string \<Rightarrow> string list \<Rightarrow> panic + string" where
  "arr_loop arr [] = Inr arr"
| "arr_loop arr (val # vals) =
     (case wrap val [QM] of Inl e \<Rightarrow> Inl e | Inr q \<Rightarrow> arr_loop (arr @ q @ '', '') vals)"

definition JArray_String_trim :: "JArray \<Rightarrow> panic + string" where
  "JArray_String_trim a =
     (case arr_loop [] (Vals a) of Inl e \<Rightarrow> Inl e | Inr arr \<Rightarrow>
      (case slice_to arr (int (length arr) - 2) of Inl e \<Rightarrow> Inl e | Inr arr \<Rightarrow>
       (case wrap arr [OB, CB] of Inl e \<Rightarrow> Inl e | Inr arr \<Rightarrow>
        (case wrap (array_Key a) [QM] of Inl e \<Rightarrow> Inl e | Inr key \<Rightarrow>
           Inr (Sprintf_v_v key arr)))))"

subsection \<open>\<open>JDict.String\<close> and the \<open>String\<close> method of the interface\<close>

definition default_keys :: "string list" where
  "default_keys = [TIME_KEY, LEVEL_KEY, ERR_KEY]"

text \<open>The function \<open>in\<close> of the source.\<close>

fun in_strs :: "string list \<Rightarrow> string \<Rightarrow> bool" where
  "in_strs [] s = False"
| "in_strs (v # vals) s = (if s = v then True else in_strs vals s)"

text \<open>
  The three iterations of \<open>JDict.String\<close>: over \<open>default_keys\<close>, over the keys of the
  map (in the order of the association list) and over the ordered keys, where \<open>out\<close>
  grows by the text of each entry and a separator.
\<close>

fun default_loop :: "JDict \<Rightarrow> string list \<Rightarrow> string list \<Rightarrow> string list" where
  "default_loop d [] keys = keys"
| "default_loop d (k # ks) keys =
     default_loop d ks (if map_of d k \<noteq> None then keys @ [k] else keys)"

fun nonDefault_loop :: "string list \<Rightarrow> string list \<Rightarrow> string list" where
  "nonDefault_loop [] nonDefaultKeys = nonDefaultKeys"
| "nonDefault_loop (k # ks) nonDefaultKeys =
     nonDefault_loop ks
       (if \<not> in_strs default_keys k then nonDefaultKeys @ [k] else nonDefaultKeys)"

text \<open>
  \<open>JObject_String\<close> dispatches on the dynamic type. \<open>JGroup.String\<close> hands its dictionary
  to \<open>fmt\<close>, which calls \<open>JDict.String\<close> and recovers from its panic; \<open>JDict.String\<close> calls
  the \<open>String\<close> method of each entry directly, so a panic of an entry is its own.
\<close>

lemma size_map_of:
  "map_of d k = Some obj \<Longrightarrow> size obj < Suc (size_list (size_prod (\<lambda>x. 0) size) d)"
  by (induction d) (auto split: if_splits)

function JObject_String :: "JObject \<Rightarrow> panic + string"
  and JDict_String :: "JDict \<Rightarrow> panic + string"
  and out_loop :: "JDict \<Rightarrow> string list \<Rightarrow> string \<Rightarrow> panic + string"
where
  "JObject_String (Obj_JPair p) = JPair_String p"
| "JObject_String (Obj_JArray a) = JArray_String a"
| "JObject_String (Obj_JGroup key dict) =
     (case wrap key [QM] of Inl e \<Rightarrow> Inl e | Inr k \<Rightarrow>
        Inr (Sprintf_v_v k (fmt_Stringer (JDict_String dict))))"
| "JDict_String d =
     (let keys = default_loop d default_keys [];
          nonDefaultKeys = nonDefault_loop (map fst d) [];
          nonDefaultKeys = sort nonDefaultKeys;
          keys = keys @ nonDefaultKeys
      in case out_loop d keys [] of Inl e \<Rightarrow> Inl e | Inr out \<Rightarrow>
          (case slice_to out (int (length out) - 2) of Inl e \<Rightarrow> Inl e | Inr s \<Rightarrow>
             wrap s [OC, CC]))"
| "out_loop d [] out = Inr out"
| "out_loop d (k # ks) out =
     (case map_of d k of
        None \<Rightarrow> Inl NilDereference
      | Some obj \<Rightarrow>
         (case JObject_String obj of Inl e \<Rightarrow> Inl e
          | Inr s \<Rightarrow> out_loop d ks (out @ s @ '', '')))"
  by pat_completeness auto

termination
  apply (relation "measures [
    (\<lambda>x. case x of Inl obj \<Rightarrow> 3 * size obj
        | Inr (Inl d) \<Rightarrow> 3 * size_list (size_prod (\<lambda>x. 0) size) d + 2
        | Inr (Inr (d, ks, out)) \<Rightarrow> 3 * size_list (size_prod (\<lambda>x. 0) size) d + 1),
    (\<lambda>x. case x of Inr (Inr (d, ks, out)) \<Rightarrow> length ks | _ \<Rightarrow> 0)]")
  apply (auto dest: size_map_of)
  done

section \<open>The aggregator of denoue.go\<close>

text \<open>
  The state of a \<open>JLog\<close>. \<open>out\<close> names the writer the logger holds, and the bytes that
  reach a writer are kept in the \<open>world\<close>, one entry per call of \<open>Write\<close>. \<open>once\<close> is the
  state of the \<open>sync.Once\<close> that the field points to: \<open>True\<close> when it has fired. The
  mutex \<open>mu\<close> has no part in a sequential run; it is the subject of the last section.
  \<open>rendered\<close> collects the documents that \<open>PrettyPrint\<close> hands to the external \<open>jq\<close>.
\<close>

type_synonym Writer = nat

definition os_Stdout :: Writer where
  "os_Stdout = 0"

record JLog =
  out :: Writer
  msgs :: JArray
  level :: string
  timeLayout :: string
  objects :: "(string \<times> JObject) list"
  once :: bool

record world =
  writes :: "(Writer \<times> string) list"
  rendered :: "string list"

definition New :: JLog where
  "New = \<lparr> out = os_Stdout, msgs = JArray MSG_KEY [] [], level = INFO,
           timeLayout = DEFAULT_TIME_LAYOUT, objects = [], once = False \<rparr>"

text \<open>
  The two errors that the retrieval functions return: \<open>errors.New("key not found")\<close>, and
  \<open>fmt.Errorf("could not cast object from key '%v'", k)\<close> with its key.
\<close>

datatype error = KeyNotFound | CouldNotCast string

text \<open>The type argument of the generic \<open>Get[T KeyVal]\<close>.\<close>

datatype KeyVal = T_JPair | T_JArray | T_JGroup

text \<open>The type assertion \<open>obj.(T)\<close>: whether the dynamic type of \<open>obj\<close> is \<open>T\<close>.\<close>

fun type_assert :: "KeyVal \<Rightarrow> JObject \<Rightarrow> bool" where
  "type_assert T_JPair (Obj_JPair p) = True"
| "type_assert T_JArray (Obj_JArray a) = True"
| "type_assert T_JGroup (Obj_JGroup key dict) = True"
| "type_assert T obj = False"

text \<open>
  Every operation takes the state and returns what the Go method returns together with
  the state it leaves.
\<close>

definition Get :: "string \<Rightarrow> JLog \<Rightarrow> (error + JObject) \<times> JLog" where
  "Get k j = (case map_of (objects j) k of
      None \<Rightarrow> (Inl KeyNotFound, j)
    | Some obj \<Rightarrow> (Inr obj, j))"

definition GetT :: "KeyVal \<Rightarrow> JLog \<Rightarrow> string \<Rightarrow> (error + JObject) \<times> JLog" where
  "GetT T j k = (case map_of (objects j) k of
      None \<Rightarrow> (Inl KeyNotFound, j)
    | Some obj \<Rightarrow> (if \<not> type_assert T obj then (Inl (CouldNotCast k), j) else (Inr obj, j)))"

definition Pop :: "string \<Rightarrow> JLog \<Rightarrow> (error + JObject) \<times> JLog" where
  "Pop k j = (case map_of (objects j) k of
      None \<Rightarrow> (Inl KeyNotFound, j)
    | Some obj \<Rightarrow> (Inr obj, j\<lparr>objects := AList.delete k (objects j)\<rparr>))"

definition SetPair :: "string \<Rightarrow> string \<Rightarrow> JLog \<Rightarrow> JLog" where
  "SetPair key val j =
     (let pair = Obj_JPair (JPair key val)
      in j\<lparr>objects := AList.update (GetKey pair) pair (objects j)\<rparr>)"

definition Set :: "JObject \<Rightarrow> JLog \<Rightarrow> JLog" where
  "Set elem j = j\<lparr>objects := AList.update (GetKey elem) elem (objects j)\<rparr>"

definition SetOutput :: "Writer \<Rightarrow> JLog \<Rightarrow> JLog" where
  "SetOutput wr j = j\<lparr>out := wr\<rparr>"

definition SetTime :: "string \<Rightarrow> JLog \<Rightarrow> JLog" where
  "SetTime layout j = j\<lparr>timeLayout := layout\<rparr>"

definition Reset :: "JLog \<Rightarrow> JLog" where
  "Reset j = j\<lparr>once := False\<rparr>"

definition Info :: "string \<Rightarrow> string list \<Rightarrow> JLog \<Rightarrow> JLog" where
  "Info format args j =
     (if length args > 0 then j\<lparr>msgs := AddSafe format args (msgs j)\<rparr>
      else j\<lparr>msgs := Add format (msgs j)\<rparr>)"

definition Warn :: "string \<Rightarrow> string list \<Rightarrow> JLog \<Rightarrow> JLog" where
  "Warn format args j =
     (let j = (if level j \<noteq> ERROR then j\<lparr>level := WARN\<rparr> else j)
      in if length args > 0 then j\<lparr>msgs := AddSafe format args (msgs j)\<rparr>
         else j\<lparr>msgs := Add format (msgs j)\<rparr>)"

text \<open>An \<open>error\<close> value of Go is modelled by the text that its \<open>Error\<close> method returns.\<close>

definition Error :: "string \<Rightarrow> JLog \<Rightarrow> JLog" where
  "Error err j =
     (let j = j\<lparr>level := ERROR\<rparr>;
          pair = Obj_JPair (JPair ERR_KEY (MakeSafe err))
      in j\<lparr>objects := AList.update (GetKey pair) pair (objects j)\<rparr>)"

type_synonym LogFunc = "string \<Rightarrow> string list \<Rightarrow> string \<times> string list \<times> JObject list"

text \<open>The loop \<open>for _, obj := range objects\<close> of \<open>Log\<close>.\<close>

fun Log_loop :: "JObject list \<Rightarrow> JDict \<Rightarrow> JDict" where
  "Log_loop [] objs = objs"
| "Log_loop (obj # rest) objs = Log_loop rest (AList.update (GetKey obj) obj objs)"

definition Log :: "LogFunc \<Rightarrow> string \<Rightarrow> string list \<Rightarrow> JLog \<Rightarrow> JLog" where
  "Log f err args j =
     (case f err args of (lvl, ms, objs) \<Rightarrow>
        j\<lparr>level := lvl,
          msgs := JArray (array_Key (msgs j)) (Vals (msgs j) @ ms) (ByteVals (msgs j)),
          objects := Log_loop objs (objects j)\<rparr>)"

subsection \<open>The one-shot gate and the two emitters\<close>

text \<open>
  How a call ends: it returns, it panics, or the process exits (\<open>log.Fatalf\<close>).
  \<open>once_Do\<close> is \<open>sync.Once.Do\<close>: the function runs only when the gate has not fired, and
  the gate has fired afterwards, also when the function panicked.
\<close>

datatype outcome = Returned | Panicked panic | Exited

definition once_Do ::
  "(JLog \<times> world \<Rightarrow> outcome \<times> JLog \<times> world) \<Rightarrow> JLog \<times> world \<Rightarrow> outcome \<times> JLog \<times> world" where
  "once_Do f s =
     (if once (fst s) then (Returned, s)
      else (case f s of (r, j, w) \<Rightarrow> (r, j\<lparr>once := True\<rparr>, w)))"

text \<open>The loop \<open>for _, elem := range j.objects\<close> of both emitters.\<close>

fun objects_loop :: "JObject list \<Rightarrow> JDict \<Rightarrow> JDict" where
  "objects_loop [] dict = dict"
| "objects_loop (elem # rest) dict = objects_loop rest (JDict_Set elem dict)"

text \<open>
  The dictionary that the closure of \<open>Print\<close> builds when there are messages: the time
  pair, the level pair, the message array, then every object of the logger. \<open>ts\<close> is the
  formatted time.
\<close>

definition Print_dict :: "string \<Rightarrow> JLog \<Rightarrow> JDict" where
  "Print_dict ts j =
     (let dict = NewJDict;
          dict = JDict_SetPair TIME_KEY ts dict;
          dict = JDict_SetPair LEVEL_KEY (level j) dict;
          dict = JDict_Set (Obj_JArray (msgs j)) dict
      in objects_loop (map snd (objects j)) dict)"

text \<open>
  \<open>Print\<close>. The clock is an input: \<open>clock layout\<close> is the current time formatted by
  \<open>layout\<close>. The closure returns early when \<open>Vals\<close> of the message array is empty.
\<close>

definition Print :: "(string \<Rightarrow> string) \<Rightarrow> JLog \<times> world \<Rightarrow> outcome \<times> JLog \<times> world" where
  "Print clock =
     once_Do (\<lambda>(j, w).
       let ts = clock (timeLayout j) in
       if length (Vals (msgs j)) > 0 then
         (case JDict_String (Print_dict ts j) of
            Inl e \<Rightarrow> (Panicked e, j, w)
          | Inr s \<Rightarrow> (Returned, j, w\<lparr>writes := writes w @ [(out j, s @ [CHR 0x0A])]\<rparr>))
       else (Returned, j, w))"

text \<open>
  \<open>PrettyPrint\<close> builds the same dictionary, but without the message array when \<open>Vals\<close>
  is empty, and does not return early. The document goes through a temporary file to the
  command \<open>jq\<close>; \<open>jq doc\<close> says whether the command succeeds, and \<open>log.Fatalf\<close> ends the
  process when it does not.
\<close>

definition PrettyPrint_dict :: "string \<Rightarrow> JLog \<Rightarrow> JDict" where
  "PrettyPrint_dict ts j =
     (let dict = NewJDict;
          dict = JDict_SetPair TIME_KEY ts dict;
          dict = JDict_SetPair LEVEL_KEY (level j) dict;
          dict = (if length (Vals (msgs j)) > 0 then JDict_Set (Obj_JArray (msgs j)) dict else dict)
      in objects_loop (map snd (objects j)) dict)"

definition PrettyPrint ::
  "(string \<Rightarrow> string) \<Rightarrow> (string \<Rightarrow> bool) \<Rightarrow> JLog \<times> world \<Rightarrow> outcome \<times> JLog \<times> world" where
  "PrettyPrint clock jq =
     once_Do (\<lambda>(j, w).
       let ts = clock (timeLayout j) in
       (case JDict_String (PrettyPrint_dict ts j) of
          Inl e \<Rightarrow> (Panicked e, j, w)
        | Inr doc \<Rightarrow>
           (if jq doc then (Returned, j, w\<lparr>rendered := rendered w @ [doc]\<rparr>)
            else (Exited, j, w\<lparr>rendered := rendered w @ [doc]\<rparr>))))"

subsection \<open>Sequences of calls\<close>

text \<open>
  A call of one of the methods of the logger, with the inputs it takes from outside: the
  clock for the emitters, the behaviour of \<open>jq\<close> for \<open>PrettyPrint\<close>.
\<close>

datatype call =
    Call_Get string
  | Call_GetT KeyVal string
  | Call_Pop string
  | Call_SetPair string string
  | Call_Set JObject
  | Call_SetOutput Writer
  | Call_SetTime string
  | Call_Print "string \<Rightarrow> string"
  | Call_Reset
  | Call_PrettyPrint "string \<Rightarrow> string" "string \<Rightarrow> bool"
  | Call_Info string "string list"
  | Call_Warn string "string list"
  | Call_Error string
  | Call_Log LogFunc string "string list"

fun step :: "call \<Rightarrow> JLog \<times> world \<Rightarrow> outcome \<times> JLog \<times> world" where
  "step (Call_Get k) (j, w) = (Returned, snd (Get k j), w)"
| "step (Call_GetT T k) (j, w) = (Returned, snd (GetT T j k), w)"
| "step (Call_Pop k) (j, w) = (Returned, snd (Pop k j), w)"
| "step (Call_SetPair key val) (j, w) = (Returned, SetPair key val j, w)"
| "step (Call_Set elem) (j, w) = (Returned, Set elem j, w)"
| "step (Call_SetOutput wr) (j, w) = (Returned, SetOutput wr j, w)"
| "step (Call_SetTime layout) (j, w) = (Returned, SetTime layout j, w)"
| "step (Call_Print clock) (j, w) = Print clock (j, w)"
| "step Call_Reset (j, w) = (Returned, Reset j, w)"
| "step (Call_PrettyPrint clock jq) (j, w) = PrettyPrint clock jq (j, w)"
| "step (Call_Info format args) (j, w) = (Returned, Info format args j, w)"
| "step (Call_Warn format args) (j, w) = (Returned, Warn format args j, w)"
| "step (Call_Error err) (j, w) = (Returned, Error err j, w)"
| "step (Call_Log f err args) (j, w) = (Returned, Log f err args j, w)"

text \<open>
  A run makes the calls one after the other and stops at the first that does not return.
\<close>

fun run :: "call list \<Rightarrow> JLog \<times> world \<Rightarrow> outcome \<times> JLog \<times> world" where
  "run [] s = (Returned, s)"
| "run (c # cs) s =
     (case step c s of
        (Returned, s') \<Rightarrow> run cs s'
      | (r, s') \<Rightarrow> (r, s'))"

section \<open>The mutex\<close>

text \<open>
  What a method does to the logger, as far as the mutex is concerned: it locks \<open>j.mu\<close>,
  unlocks it (the deferred call), loads a field of \<open>j\<close> or stores to one. A map, a slice
  and the \<open>sync.Once\<close> behind a field count with the field.
\<close>

datatype field = F_out | F_msgs | F_level | F_timeLayout | F_objects | F_once

datatype instr = Lock | Unlock | Load field | Store field

text \<open>
  The instructions of each method in the order of the source. For the two emitters it is
  the path on which the gate has not fired and \<open>Vals\<close> is not empty: \<open>j.once\<close> is loaded
  for \<open>Do\<close>, then the closure reads the layout, the level, the messages (for the test and
  for \<open>dict.Set\<close>), the objects and, in \<open>Print\<close>, the writer.
\<close>

fun footprint :: "call \<Rightarrow> instr list" where
  "footprint (Call_Get k) = [Lock, Load F_objects, Unlock]"
| "footprint (Call_GetT T k) = [Load F_objects]"
| "footprint (Call_Pop k) = [Lock, Load F_objects, Store F_objects, Unlock]"
| "footprint (Call_SetPair key val) = [Lock, Store F_objects, Unlock]"
| "footprint (Call_Set elem) = [Lock, Store F_objects, Unlock]"
| "footprint (Call_SetOutput wr) = [Lock, Store F_out, Unlock]"
| "footprint (Call_SetTime layout) = [Lock, Store F_timeLayout, Unlock]"
| "footprint (Call_Print clock) =
     [Load F_once, Load F_timeLayout, Load F_level, Load F_msgs, Load F_msgs,
      Load F_objects, Load F_out]"
| "footprint Call_Reset = [Store F_once]"
| "footprint (Call_PrettyPrint clock jq) =
     [Load F_once, Load F_timeLayout, Load F_level, Load F_msgs, Load F_msgs,
      Load F_objects]"
| "footprint (Call_Info format args) = [Lock, Load F_msgs, Store F_msgs, Unlock]"
| "footprint (Call_Warn format args) =
     [Lock, Load F_level, Store F_level, Load F_msgs, Store F_msgs, Unlock]"
| "footprint (Call_Error err) = [Lock, Store F_level, Store F_objects, Unlock]"
| "footprint (Call_Log f err args) =
     [Lock, Store F_level, Load F_msgs, Store F_msgs, Store F_objects, Unlock]"

text \<open>
  \<open>disciplined held p\<close>: started with the mutex held or not, the instructions \<open>p\<close> lock
  only a mutex they do not hold, unlock only one they hold, touch a field only while they
  hold it, and end without it. A method holds the lock when its instructions are
  disciplined from the start.
\<close>

fun disciplined :: "bool \<Rightarrow> instr list \<Rightarrow> bool" where
  "disciplined held [] = (\<not> held)"
| "disciplined held (Lock # p) = (\<not> held \<and> disciplined True p)"
| "disciplined held (Unlock # p) = (held \<and> disciplined False p)"
| "disciplined held (Load f # p) = (held \<and> disciplined held p)"
| "disciplined held (Store f # p) = (held \<and> disciplined held p)"

definition holds_lock :: "call \<Rightarrow> bool" where
  "holds_lock c = disciplined False (footprint c)"

text \<open>
  Two goroutines on one logger. A configuration is the owner of the mutex and what is
  left of the two methods. \<open>move t\<close> lets goroutine \<open>t\<close> (\<open>1\<close> or \<open>2\<close>) do its next
  instruction; there is no move when nothing is left or when the instruction is \<open>Lock\<close>
  and the mutex is taken. \<open>exec\<close> follows a schedule.
\<close>

type_synonym conf = "nat option \<times> instr list \<times> instr list"

fun after_instr :: "nat \<Rightarrow> nat option \<Rightarrow> instr \<Rightarrow> nat option option" where
  "after_instr t owner Lock = (if owner = None then Some (Some t) else None)"
| "after_instr t owner Unlock = Some None"
| "after_instr t owner (Load f) = Some owner"
| "after_instr t owner (Store f) = Some owner"

fun move :: "nat \<Rightarrow> conf \<Rightarrow> conf option" where
  "move t (owner, p, q) =
     (if t = 1 then
        (case p of [] \<Rightarrow> None
         | i # p' \<Rightarrow> (case after_instr 1 owner i of None \<Rightarrow> None
                      | Some owner' \<Rightarrow> Some (owner', p', q)))
      else
        (case q of [] \<Rightarrow> None
         | i # q' \<Rightarrow> (case after_instr 2 owner i of None \<Rightarrow> None
                      | Some owner' \<Rightarrow> Some (owner', p, q'))))"

fun exec :: "nat list \<Rightarrow> conf \<Rightarrow> conf option" where
  "exec [] c = Some c"
| "exec (t # sched) c = (case move t c of None \<Rightarrow> None | Some c' \<Rightarrow> exec sched c')"

text \<open>
  A data race: the next instructions of the two goroutines touch the same field and one
  of them stores.
\<close>

fun conflict :: "instr \<Rightarrow> instr \<Rightarrow> bool" where
  "conflict (Store f) (Store g) = (f = g)"
| "conflict (Store f) (Load g) = (f = g)"
| "conflict (Load f) (Store g) = (f = g)"
| "conflict i1 i2 = False"

fun race :: "conf \<Rightarrow> bool" where
  "race (owner, i1 # p, i2 # q) = conflict i1 i2"
| "race c = False"

text \<open>What the specification says of one byte: a quote gets a backslash in front.\<close>

definition escape_byte :: "char \<Rightarrow> string" where
  "escape_byte c = (if c = CHR 0x22 then [CHR 0x5C, CHR 0x22] else [c])"

section \<open>Notions of the specification\<close>

text \<open>
  The definitions of this section follow the words of the specification, not the code;
  the theorems compare the code with them. \<open>join_comma\<close> puts the separator of two bytes
  between the elements, \<open>quoted\<close> puts an element between double quotes.
\<close>

fun join_comma :: "string list \<Rightarrow> string" where
  "join_comma [] = []"
| "join_comma [s] = s"
| "join_comma (s # t # ss) = s @ '', '' @ join_comma (t # ss)"

definition quoted :: "string \<Rightarrow> string" where
  "quoted s = QM @ s @ QM"

text \<open>
  An interleaving of insertions into an array, the raw values among them and the escaped
  values among them (the format and the arguments escaped and put together), each in the
  order of insertion.
\<close>

datatype insertion = Ins_Add string | Ins_AddSafe string "string list"

fun insert_all :: "insertion list \<Rightarrow> JArray \<Rightarrow> JArray" where
  "insert_all [] a = a"
| "insert_all (Ins_Add val # ins) a = insert_all ins (Add val a)"
| "insert_all (Ins_AddSafe format args # ins) a = insert_all ins (AddSafe format args a)"





text \<open>
  The rank of a level in the order \<open>INFO\<close>, \<open>WARN\<close>, \<open>ERROR\<close>; the calls of the standard
  record path; the kind of a node, for the typed retrieval.
\<close>

definition level_rank :: "string \<Rightarrow> nat" where
  "level_rank l = (if l = ''ERROR'' then 2 else if l = ''WARN'' then 1 else 0)"

fun record_call :: "call \<Rightarrow> bool" where
  "record_call (Call_Info format args) = True"
| "record_call (Call_Warn format args) = True"
| "record_call (Call_Error err) = True"
| "record_call c = False"

fun kind_of :: "JObject \<Rightarrow> KeyVal" where
  "kind_of (Obj_JPair p) = T_JPair"
| "kind_of (Obj_JArray a) = T_JArray"
| "kind_of (Obj_JGroup key dict) = T_JGroup"

text \<open>
  The calls that go through the gate. \<open>bodies_run cs s\<close> counts the calls of the run of
  \<open>cs\<close> from \<open>s\<close> whose closure \<open>once_Do\<close> ran: an emitter called while the gate had not
  fired. \<open>emissions\<close> counts what has left the logger: writes to a sink and documents
  handed to \<open>jq\<close>.
\<close>

fun emits :: "call \<Rightarrow> bool" where
  "emits (Call_Print clock) = True"
| "emits (Call_PrettyPrint clock jq) = True"
| "emits c = False"

fun bodies_run :: "call list \<Rightarrow> JLog \<times> world \<Rightarrow> nat" where
  "bodies_run [] s = 0"
| "bodies_run (c # cs) s =
     (if emits c \<and> \<not> once (fst s) then 1 else 0)
     + (case step c s of (Returned, s') \<Rightarrow> bodies_run cs s' | (r, s') \<Rightarrow> 0)"

definition emissions :: "world \<Rightarrow> nat" where
  "emissions w = length (writes w) + length (rendered w)"

text \<open>
  What every method keeps true of the map of the logger and what a Go map gives for free:
  one entry per key, and every object under its own key.
\<close>

definition wf_objects :: "JDict \<Rightarrow> bool" where
  "wf_objects d = (distinct (map fst d) \<and> list_all (\<lambda>(k, obj). GetKey obj = k) d)"

text \<open>
  The invariant of two disciplined goroutines: each holds the mutex exactly when it is
  the owner.
\<close>

definition mutex_inv :: "bool \<Rightarrow> bool \<Rightarrow> conf \<Rightarrow> bool" where
  "mutex_inv h1 h2 c = (case c of (owner, p, q) \<Rightarrow>
     disciplined h1 p \<and> disciplined h2 q
     \<and> (h1 \<longleftrightarrow> owner = Some 1) \<and> (h2 \<longleftrightarrow> owner = Some 2))"

section \<open>Properties of the escaper\<close>

lemma WriteEscaped_append: "WriteEscaped b s = b @ concat (map escape_byte s)"
  by (induction s arbitrary: b) (simp_all add: escape_byte_def)

lemma MakeSafe_concat: "MakeSafe s = concat (map escape_byte s)"
  by (simp add: MakeSafe_def WriteEscaped_append)

lemma escape_no_quote: "CHR 0x22 \<notin> set s \<Longrightarrow> concat (map escape_byte s) = s"
  by (induction s) (auto simp add: escape_byte_def)

lemma escape_drop_backslash:
  "CHR 0x5C \<notin> set s \<Longrightarrow> filter (\<lambda>c. c \<noteq> CHR 0x5C) (concat (map escape_byte s)) = s"
  by (induction s) (auto simp add: escape_byte_def)

text \<open>
  C7. \<open>MakeSafe\<close> returns its argument with a backslash put immediately before every
  double quote and every other byte, a backslash too, passed through; it is defined on
  every string (a structural recursion over the bytes), it is the identity on a string
  that has no double quote, and two strings without a backslash that escape to the same
  string are equal.
\<close>

theorem MakeSafe_escapes:
  "MakeSafe s = concat (map (\<lambda>c. if c = CHR 0x22 then [CHR 0x5C, CHR 0x22] else [c]) s)
   \<and> (CHR 0x22 \<notin> set s \<longrightarrow> MakeSafe s = s)
   \<and> (CHR 0x5C \<notin> set s \<and> CHR 0x5C \<notin> set t \<and> MakeSafe s = MakeSafe t \<longrightarrow> s = t)"
proof (intro conjI impI)
  show "MakeSafe s = concat (map (\<lambda>c. if c = CHR 0x22 then [CHR 0x5C, CHR 0x22] else [c]) s)"
    using MakeSafe_concat [of s] by (simp add: escape_byte_def [abs_def])
next
  assume "CHR 0x22 \<notin> set s"
  then show "MakeSafe s = s"
    by (simp add: MakeSafe_concat escape_no_quote)
next
  assume h: "CHR 0x5C \<notin> set s \<and> CHR 0x5C \<notin> set t \<and> MakeSafe s = MakeSafe t"
  then have "filter (\<lambda>c. c \<noteq> CHR 0x5C) (concat (map escape_byte s))
      = filter (\<lambda>c. c \<noteq> CHR 0x5C) (concat (map escape_byte t))"
    by (simp add: MakeSafe_concat)
  with h show "s = t"
    by (simp add: escape_drop_backslash)
qed

theorem MakeSafe_escapes_witness:
  \<open>MakeSafe [CHR ''a'', CHR 0x5C, CHR 0x22, CHR ''b'']
     = [CHR ''a'', CHR 0x5C, CHR 0x5C, CHR 0x22, CHR ''b'']
   \<and> CHR 0x22 \<notin> set ''plain'' \<and> MakeSafe ''plain'' = ''plain''
   \<and> CHR 0x5C \<notin> set ''a"b'' \<and> MakeSafe ''a"b'' = MakeSafe ''a"b'' \<and> ''a"b'' = ''a"b''\<close>
  using MakeSafe_escapes [of "[CHR ''a'', CHR 0x5C, CHR 0x22, CHR ''b'']" "[]"]
    MakeSafe_escapes [of "''plain''" "[]"]
    MakeSafe_escapes [of \<open>''a"b''\<close> \<open>''a"b''\<close>]
  by simp

section \<open>Properties of the serializer\<close>

subsection \<open>Arrays\<close>

lemma join_comma_Cons:
  "join_comma (s # ss) = (if ss = [] then s else s @ '', '' @ join_comma ss)"
  by (cases ss) simp_all

lemma join_comma_append:
  "join_comma (xs @ ys) =
     (if xs = [] then join_comma ys else if ys = [] then join_comma xs
      else join_comma xs @ '', '' @ join_comma ys)"
  by (induction xs) (auto simp: join_comma_Cons)

lemma Vals_loop_eq:
  "Vals_loop first sb vals =
     Inr (first \<and> vals = [],
          sb @ (if vals = [] then []
                else (if first then [] else '', '') @ join_comma (map quoted vals)))"
  by (induction vals arbitrary: first sb) (auto simp: quoted_def join_comma_Cons)

lemma ByteVals_loop_eq:
  "ByteVals_loop first sb bs =
     (first \<and> bs = [],
      sb @ (if bs = [] then []
            else (if first then [] else '', '') @ join_comma (map quoted bs)))"
  by (induction bs arbitrary: first sb) (auto simp: quoted_def join_comma_Cons)

lemma JArray_String_eq:
  "JArray_String a =
     Inr (quoted (array_Key a) @ '': ['' @
          join_comma (map quoted (Vals a) @ map quoted (ByteVals a)) @ '']'')"
  by (auto simp: JArray_String_def quoted_def Vals_loop_eq ByteVals_loop_eq OB_def CB_def
      join_comma_append)






text \<open>
  The revision that trims the separator panics on an array whose \<open>Vals\<close> is empty and
  leaves the escaped values out of the text.
\<close>

lemma arr_loop_eq:
  "arr_loop arr vals = Inr (arr @ concat (map (\<lambda>s. quoted s @ '', '') vals))"
  by (induction vals arbitrary: arr) (simp_all add: quoted_def)

lemma JArray_String_trim_empty:
  "JArray_String_trim (JArray key [] bs) = Inl (SliceBounds (- 2))"
  by (simp add: JArray_String_trim_def slice_to_def)

lemma JArray_String_trim_drops_ByteVals:
  "JArray_String_trim (JArray key vals bs) = JArray_String_trim (JArray key vals [])"
  by (simp add: JArray_String_trim_def arr_loop_eq split: sum.splits)

lemma JArray_String_trim_example:
  \<open>JArray_String_trim
     (insert_all [Ins_Add ''a'', Ins_AddSafe ''b'' [], Ins_Add ''c''] (NewJArray ''key''))
   = Inr ''"key": ["a", "c"]''\<close>
  by code_simp

subsection \<open>Dictionaries\<close>















text \<open>
  C6. A dictionary with no entry: \<open>out\<close> stays empty, and cutting two bytes off an empty
  string is a slice with the bound \<open>-2\<close>, so \<open>JDict.String\<close> panics where the
  specification has \<open>{}\<close>. Inside a group the panic is recovered by \<open>fmt\<close> and its text
  stands where the dictionary should. The empty array is written as the specification
  says.
\<close>

theorem JDict_String_empty_panics:
  \<open>JDict_String NewJDict = Inl (SliceBounds (- 2))
   \<and> JObject_String (Obj_JGroup ''g'' NewJDict)
       = Inr ''"g": %!v(PANIC=String method: runtime error: slice bounds out of range [:-2])''
   \<and> JArray_String (NewJArray ''key'') = Inr ''"key": []''\<close>
  by (simp add: NewJDict_def NewJArray_def JArray_String_eq default_keys_def slice_to_def
      fmt_Stringer_def panic_text_def quoted_def QM_def Sprintf_v_v_def)

section \<open>Properties of the aggregator\<close>

subsection \<open>The level\<close>

lemma level_step:
  assumes "record_call c" and "level j \<in> {INFO, WARN, ERROR}"
  shows "\<exists>j' w'. step c (j, w) = (Returned, j', w') \<and> level j' \<in> {INFO, WARN, ERROR}
     \<and> level_rank (level j) \<le> level_rank (level j') \<and> (level j = ERROR \<longrightarrow> level j' = ERROR)"
  using assms
  by (cases c) (auto simp: Info_def Warn_def Error_def Let_def level_rank_def INFO_def WARN_def ERROR_def)

lemma level_run:
  assumes "list_all record_call cs" and "level j \<in> {INFO, WARN, ERROR}"
  shows "\<exists>j' w'. run cs (j, w) = (Returned, j', w') \<and> level j' \<in> {INFO, WARN, ERROR}
     \<and> level_rank (level j) \<le> level_rank (level j') \<and> (level j = ERROR \<longrightarrow> level j' = ERROR)"
  using assms
proof (induction cs arbitrary: j w)
  case Nil
  then show ?case by simp
next
  case (Cons c cs)
  from Cons.prems have c: "record_call c" and cs: "list_all record_call cs" by simp_all
  from level_step [OF c Cons.prems(2), of w] obtain j1 w1 where
    s1: "step c (j, w) = (Returned, j1, w1)" and l1: "level j1 \<in> {INFO, WARN, ERROR}"
    and r1: "level_rank (level j) \<le> level_rank (level j1)"
    and e1: "level j = ERROR \<longrightarrow> level j1 = ERROR"
    by blast
  from Cons.IH [OF cs l1, of w1] obtain j2 w2 where
    s2: "run cs (j1, w1) = (Returned, j2, w2)" and l2: "level j2 \<in> {INFO, WARN, ERROR}"
    and r2: "level_rank (level j1) \<le> level_rank (level j2)"
    and e2: "level j1 = ERROR \<longrightarrow> level j2 = ERROR"
    by blast
  have "run (c # cs) (j, w) = (Returned, j2, w2)"
    using s1 s2 by simp
  with l2 r1 r2 e1 e2 show ?case
    by (metis le_trans)
qed

text \<open>
  C3. The level of a new logger is \<open>INFO\<close>. \<open>Info\<close> leaves the level as it is, \<open>Warn\<close>
  makes it \<open>WARN\<close> unless it is \<open>ERROR\<close>, \<open>Error\<close> makes it \<open>ERROR\<close>. From any state
  whose level is one of the three, so from a new logger and from every state that such
  calls reach, a sequence of \<open>Info\<close>, \<open>Warn\<close> and \<open>Error\<close> calls returns with a level that is
  one of the three and not lower in rank, and \<open>ERROR\<close> stays \<open>ERROR\<close>.
\<close>

theorem level_only_advances:
  assumes "list_all record_call cs" and "level j \<in> {INFO, WARN, ERROR}"
  shows "level New = INFO
    \<and> level (Info format args j) = level j
    \<and> level (Warn format args j) = (if level j = ERROR then ERROR else WARN)
    \<and> level (Error err j) = ERROR
    \<and> (\<exists>j' w'. run cs (j, w) = (Returned, j', w') \<and> level j' \<in> {INFO, WARN, ERROR}
          \<and> level_rank (level j) \<le> level_rank (level j')
          \<and> (level j = ERROR \<longrightarrow> level j' = ERROR))"
  using level_run [OF assms, of w]
  by (simp add: New_def Info_def Warn_def Error_def Let_def)

theorem level_only_advances_witness:
  "list_all record_call [Call_Info ''a'' [], Call_Warn ''b'' [], Call_Info ''c'' []]
   \<and> level New \<in> {INFO, WARN, ERROR}
   \<and> level (fst (snd (run [Call_Info ''a'' [], Call_Warn ''b'' [], Call_Info ''c'' []]
        (New, \<lparr>writes = [], rendered = []\<rparr>)))) = ''WARN''
   \<and> level (fst (snd (run [Call_Warn ''b'' [], Call_Error ''bad'', Call_Info ''c'' [], Call_Warn ''d'' []]
        (New, \<lparr>writes = [], rendered = []\<rparr>)))) = ''ERROR''
   \<and> (\<exists>j' w'. run [Call_Info ''a'' [], Call_Warn ''b'' [], Call_Info ''c'' []]
          (New, \<lparr>writes = [], rendered = []\<rparr>) = (Returned, j', w')
        \<and> level_rank (level New) \<le> level_rank (level j'))"
proof -
  let ?cs = "[Call_Info ''a'' [], Call_Warn ''b'' [], Call_Info ''c'' []]"
  have a: "list_all record_call ?cs" by simp
  have b: "level New \<in> {INFO, WARN, ERROR}" by (simp add: New_def)
  have c: "level (fst (snd (run ?cs (New, \<lparr>writes = [], rendered = []\<rparr>)))) = ''WARN''"
    by code_simp
  have d: "level (fst (snd (run [Call_Warn ''b'' [], Call_Error ''bad'', Call_Info ''c'' [], Call_Warn ''d'' []]
        (New, \<lparr>writes = [], rendered = []\<rparr>)))) = ''ERROR''"
    by code_simp
  show ?thesis
    using a b c d level_only_advances [OF a b, where w = "\<lparr>writes = [], rendered = []\<rparr>"]
    by blast
qed

subsection \<open>Retrieval\<close>

lemma type_assert_kind: "type_assert T obj = (kind_of obj = T)"
  by (cases T; cases obj) simp_all

lemma GetT_same_kind:
  "map_of (objects j) k = Some obj \<Longrightarrow> kind_of obj = T \<Longrightarrow> GetT T j k = (Inr obj, j)"
  by (simp add: GetT_def type_assert_kind)

text \<open>
  C8. When the key is present, \<open>Get\<close> returns the stored node and the state it was called
  in, \<open>Pop\<close> returns the node and a state that differs only in the map, which has lost
  exactly this key, and the typed \<open>Get[T]\<close> fails with the cast error when the kind of the
  node is not \<open>T\<close>. When the key is absent, all three
  fail with the error of the missing key and leave the state as it was.
\<close>

theorem retrieval_results:
  "(map_of (objects j) k = Some obj \<longrightarrow>
      Get k j = (Inr obj, j)
      \<and> (\<exists>j'. Pop k j = (Inr obj, j') \<and> map_of (objects j') = (map_of (objects j))(k := None)
            \<and> j' = j\<lparr>objects := objects j'\<rparr>)
      \<and> (kind_of obj \<noteq> T \<longrightarrow> GetT T j k = (Inl (CouldNotCast k), j)))
   \<and> (map_of (objects j) k = None \<longrightarrow>
      Get k j = (Inl KeyNotFound, j) \<and> Pop k j = (Inl KeyNotFound, j)
      \<and> GetT T j k = (Inl KeyNotFound, j))"
  by (auto simp: Get_def Pop_def GetT_def type_assert_kind delete_conv')

theorem retrieval_results_witness:
  "map_of (objects (SetPair ''method'' ''GET'' New)) ''method''
     = Some (Obj_JPair (JPair ''method'' ''GET''))
   \<and> Get ''method'' (SetPair ''method'' ''GET'' New)
     = (Inr (Obj_JPair (JPair ''method'' ''GET'')), SetPair ''method'' ''GET'' New)
   \<and> Pop ''method'' (SetPair ''method'' ''GET'' New)
     = (Inr (Obj_JPair (JPair ''method'' ''GET'')), New)
   \<and> kind_of (Obj_JPair (JPair ''method'' ''GET'')) \<noteq> T_JArray
   \<and> GetT T_JArray (SetPair ''method'' ''GET'' New) ''method''
     = (Inl (CouldNotCast ''method''), SetPair ''method'' ''GET'' New)
   \<and> map_of (objects New) ''method'' = None
   \<and> Get ''method'' New = (Inl KeyNotFound, New)
   \<and> Pop ''method'' New = (Inl KeyNotFound, New)"
proof -
  have a: "map_of (objects (SetPair ''method'' ''GET'' New)) ''method''
     = Some (Obj_JPair (JPair ''method'' ''GET''))"
    by (simp add: SetPair_def New_def)
  have b: "map_of (objects New) ''method'' = None"
    by (simp add: New_def)
  have c: "Pop ''method'' (SetPair ''method'' ''GET'' New)
     = (Inr (Obj_JPair (JPair ''method'' ''GET'')), New)"
    by (simp add: Pop_def SetPair_def New_def)
  show ?thesis
    using a b c
      retrieval_results [where j = "SetPair ''method'' ''GET'' New" and k = "''method''"
        and obj = "Obj_JPair (JPair ''method'' ''GET'')" and T = T_JArray]
      retrieval_results [where j = New and k = "''method''"
        and obj = "Obj_JPair (JPair ''method'' ''GET'')" and T = T_JArray]
    by simp
qed

subsection \<open>The one-shot gate\<close>

lemma once_Do_fired: "once (fst s) \<Longrightarrow> once_Do f s = (Returned, s)"
  by (simp add: once_Do_def)

lemma once_Do_fires: "once (fst (snd (once_Do f s)))"
  by (simp add: once_Do_def split: prod.splits)

lemma once_Do_emissions:
  assumes "\<And>j w r j' w'. f (j, w) = (r, j', w') \<Longrightarrow> emissions w' \<le> emissions w + 1"
  shows "emissions (snd (snd (once_Do f (j, w)))) \<le> emissions w + (if once j then 0 else 1)"
proof (cases "once j")
  case True
  then show ?thesis by (simp add: once_Do_def)
next
  case False
  obtain r j' w' where f: "f (j, w) = (r, j', w')" by (cases "f (j, w)") auto
  from assms [OF f] False f show ?thesis by (simp add: once_Do_def)
qed

lemma Print_emissions:
  "emissions (snd (snd (Print clock (j, w)))) \<le> emissions w + (if once j then 0 else 1)"
  unfolding Print_def
  by (rule once_Do_emissions) (auto simp: emissions_def Let_def split: if_splits sum.splits)

lemma PrettyPrint_emissions:
  "emissions (snd (snd (PrettyPrint clock jq (j, w)))) \<le> emissions w + (if once j then 0 else 1)"
  unfolding PrettyPrint_def
  by (rule once_Do_emissions) (auto simp: emissions_def Let_def split: if_splits sum.splits)

lemma step_once:
  assumes "c \<noteq> Call_Reset" and "once j"
  shows "once (fst (snd (step c (j, w))))"
  using assms
  by (cases c)
    (simp_all add: Get_def GetT_def Pop_def SetPair_def Set_def SetOutput_def SetTime_def
      Info_def Warn_def Error_def Log_def Let_def Print_def PrettyPrint_def once_Do_fired
      split: option.splits prod.splits)

lemma step_emits_once:
  assumes "emits c"
  shows "once (fst (snd (step c (j, w))))"
  using assms by (cases c) (simp_all add: Print_def PrettyPrint_def once_Do_fires)

lemma step_emissions:
  "emissions (snd (snd (step c (j, w)))) \<le> emissions w + (if emits c \<and> \<not> once j then 1 else 0)"
proof (cases c)
  case (Call_Print clock)
  then show ?thesis using Print_emissions [of clock j w] by (auto split: if_splits)
next
  case (Call_PrettyPrint clock jq)
  then show ?thesis using PrettyPrint_emissions [of clock jq j w] by (auto split: if_splits)
qed simp_all

lemma run_fired:
  assumes "Call_Reset \<notin> set cs" and "once j"
  shows "bodies_run cs (j, w) = 0 \<and> emissions (snd (snd (run cs (j, w)))) \<le> emissions w"
  using assms
proof (induction cs arbitrary: j w)
  case Nil
  then show ?case by simp
next
  case (Cons c cs)
  obtain r j1 w1 where s1: "step c (j, w) = (r, j1, w1)" by (cases "step c (j, w)") auto
  from Cons.prems have c: "c \<noteq> Call_Reset" and cs: "Call_Reset \<notin> set cs" by auto
  have o1: "once j1" using step_once [OF c Cons.prems(2), of w] s1 by simp
  have e1: "emissions w1 \<le> emissions w"
    using step_emissions [of c j w] s1 Cons.prems(2) by simp
  show ?case
  proof (cases r)
    case Returned
    with Cons.IH [OF cs o1, of w1] s1 e1 Cons.prems(2) show ?thesis by simp
  next
    case (Panicked e)
    with s1 e1 Cons.prems(2) show ?thesis by simp
  next
    case Exited
    with s1 e1 Cons.prems(2) show ?thesis by simp
  qed
qed

lemma run_one_shot:
  assumes "Call_Reset \<notin> set cs"
  shows "bodies_run cs (j, w) \<le> 1
     \<and> emissions (snd (snd (run cs (j, w)))) \<le> emissions w + bodies_run cs (j, w)"
  using assms
proof (induction cs arbitrary: j w)
  case Nil
  then show ?case by simp
next
  case (Cons c cs)
  obtain r j1 w1 where s1: "step c (j, w) = (r, j1, w1)" by (cases "step c (j, w)") auto
  from Cons.prems have cs: "Call_Reset \<notin> set cs" by auto
  have e1: "emissions w1 \<le> emissions w + (if emits c \<and> \<not> once j then 1 else 0)"
    using step_emissions [of c j w] s1 by simp
  show ?case
  proof (cases "emits c \<and> \<not> once j")
    case True
    then have "once j1" using step_emits_once [of c j w] s1 by simp
    from run_fired [OF cs this, of w1] s1 e1 True show ?thesis
      by (cases r) auto
  next
    case False
    with Cons.IH [OF cs, of j1 w1] s1 e1 show ?thesis
      by (cases r) auto
  qed
qed

text \<open>
  C2. In a run without \<open>Reset\<close>, from any state, at most one call among the \<open>Print\<close> and
  \<open>PrettyPrint\<close> calls runs its closure, and the emissions grow by at most that one. When
  the gate has fired, \<open>Print\<close> and \<open>PrettyPrint\<close> return the state and the world as they
  got them; when it has not, either of them leaves it fired, whatever the messages are.
  The gate of a new logger and the gate after \<open>Reset\<close> have not fired.
\<close>

theorem one_shot_gate:
  assumes "Call_Reset \<notin> set cs"
  shows "bodies_run cs (j, w) \<le> 1
    \<and> emissions (snd (snd (run cs (j, w)))) \<le> emissions w + bodies_run cs (j, w)
    \<and> (once j \<longrightarrow> Print clock (j, w) = (Returned, j, w)
                 \<and> PrettyPrint clock jq (j, w) = (Returned, j, w))
    \<and> (\<not> once j \<longrightarrow> once (fst (snd (Print clock (j, w))))
                 \<and> once (fst (snd (PrettyPrint clock jq (j, w)))))
    \<and> \<not> once New \<and> \<not> once (Reset j)"
  using run_one_shot [OF assms, of j w]
  by (simp add: Print_def PrettyPrint_def once_Do_fired once_Do_fires New_def Reset_def)

theorem one_shot_gate_witness:
  "Call_Reset \<notin> set [Call_Print (\<lambda>layout. ''now''), Call_Info ''late'' [],
       Call_PrettyPrint (\<lambda>layout. ''now'') (\<lambda>doc. True), Call_Print (\<lambda>layout. ''now'')]
   \<and> bodies_run [Call_Print (\<lambda>layout. ''now''), Call_Info ''late'' [],
       Call_PrettyPrint (\<lambda>layout. ''now'') (\<lambda>doc. True), Call_Print (\<lambda>layout. ''now'')]
      (Info ''hello'' [] New, \<lparr>writes = [], rendered = []\<rparr>) = 1
   \<and> emissions (snd (snd (run [Call_Print (\<lambda>layout. ''now''), Call_Info ''late'' [],
       Call_PrettyPrint (\<lambda>layout. ''now'') (\<lambda>doc. True), Call_Print (\<lambda>layout. ''now'')]
      (Info ''hello'' [] New, \<lparr>writes = [], rendered = []\<rparr>)))) \<le> 1
   \<and> once (fst (snd (Print (\<lambda>layout. ''now'') (New, \<lparr>writes = [], rendered = []\<rparr>))))
   \<and> writes (snd (snd (Print (\<lambda>layout. ''now'') (New, \<lparr>writes = [], rendered = []\<rparr>)))) = []"
proof -
  let ?cs = "[Call_Print (\<lambda>layout. ''now''), Call_Info ''late'' [],
       Call_PrettyPrint (\<lambda>layout. ''now'') (\<lambda>doc. True), Call_Print (\<lambda>layout. ''now'')]"
  let ?w = "\<lparr>writes = [], rendered = []\<rparr>"
  have a: "Call_Reset \<notin> set ?cs" by simp
  have b: "bodies_run ?cs (Info ''hello'' [] New, ?w) = 1"
    by code_simp
  have c: "\<not> once New" by (simp add: New_def)
  have d: "writes (snd (snd (Print (\<lambda>layout. ''now'') (New, ?w)))) = []"
    by code_simp
  have e: "emissions ?w = 0" by (simp add: emissions_def)
  show ?thesis
    using a b c d e
      one_shot_gate [OF a, where j = "Info ''hello'' [] New" and w = ?w
        and clock = "\<lambda>layout. ''now''" and jq = "\<lambda>doc. True"]
      one_shot_gate [OF a, where j = New and w = ?w
        and clock = "\<lambda>layout. ''now''" and jq = "\<lambda>doc. True"]
    by simp
qed

subsection \<open>The record that \<open>Print\<close> writes\<close>







lemma Print_empty_Vals:
  assumes "\<not> once j" and "Vals (msgs j) = []"
  shows "Print clock (j, w) = (Returned, j\<lparr>once := True\<rparr>, w)"
  using assms by (simp add: Print_def once_Do_def)




lemma wf_objects_iff:
  "wf_objects d \<longleftrightarrow>
     distinct (map fst d) \<and> (\<forall>k obj. map_of d k = Some obj \<longrightarrow> GetKey obj = k)"
  by (auto simp: wf_objects_def list_all_iff)

lemma wf_update: "GetKey obj = k \<Longrightarrow> wf_objects d \<Longrightarrow> wf_objects (AList.update k obj d)"
  by (simp add: wf_objects_iff distinct_update update_conv')

lemma wf_delete: "wf_objects d \<Longrightarrow> wf_objects (AList.delete k d)"
  by (simp add: wf_objects_iff distinct_delete delete_conv')

lemma wf_Log_loop: "wf_objects d \<Longrightarrow> wf_objects (Log_loop objs d)"
  by (induction objs arbitrary: d) (simp_all add: wf_update)

lemma wf_step:
  assumes "wf_objects (objects j)"
  shows "wf_objects (objects (fst (snd (step c (j, w)))))"
  using assms
  by (cases c)
    (auto simp: Get_def GetT_def Pop_def SetPair_def Set_def SetOutput_def SetTime_def
      Info_def Warn_def Error_def Log_def Let_def Print_def PrettyPrint_def once_Do_def Reset_def
      wf_update wf_delete wf_Log_loop
      split: option.splits prod.splits sum.splits)

lemma wf_New: "wf_objects (objects New)"
  by (simp add: New_def wf_objects_def)

text \<open>
  C1. What \<open>Print\<close> tests is \<open>len(j.msgs.Vals)\<close>. A message recorded with arguments goes
  through \<open>AddSafe\<close> into \<open>ByteVals\<close>: after \<open>Info("hello %s", "world")\<close> on a new logger
  the message array holds one message, and \<open>Print\<close> fires the gate and writes nothing.
  The lemmas \<open>Print_empty_Vals\<close> and \<open>Print_writes\<close> above are the rest of the claim:
  nothing is written when \<open>Vals\<close> is empty, and otherwise exactly one write, of the
  serialized record and a newline.
\<close>

theorem Print_skips_escaped_messages:
  "(let j = Info ''hello %s'' [''world''] New
    in msgs j = JArray ''msgs'' [] [''hello %sworld'']
       \<and> Print clock (j, w) = (Returned, j\<lparr>once := True\<rparr>, w))"
  by (simp add: Let_def Info_def New_def AddSafe_def Print_def once_Do_def MSG_KEY_def)

subsection \<open>Two tests of the repository\<close>

text \<open>
  \<open>Test_InfoAndPrint\<close> and \<open>ExampleJLog_PrettyPrint_change_pairs\<close> of the test file, run
  on the model: the line that \<open>Print\<close> writes, and the document that \<open>PrettyPrint\<close> hands
  to \<open>jq\<close>, whose entries come in the order of the expected output of the example.
\<close>

lemma Test_InfoAndPrint:
  \<open>writes (snd (snd (run [Call_Info ''hello world'' [], Call_Print (\<lambda>layout. ''now'')]
     (New, \<lparr>writes = [], rendered = []\<rparr>))))
   = [(os_Stdout, ''{"time": "now", "level": "INFO", "msgs": ["hello world"]}'' @ [CHR 0x0A])]\<close>
  by code_simp

lemma ExampleJLog_PrettyPrint_change_pairs:
  \<open>rendered (snd (snd (run
     [Call_SetPair ''time'' ''2023-08-10 9:20:27.067pm -04'',
      Call_Set (NewJGroup ''request''
        (JDict_SetPair ''method'' ''GET'' (JDict_SetPair ''remote_ip'' ''192.0.2.1''
          (JDict_SetPair ''url'' ''/ping'' NewJDict)))),
      Call_SetPair ''response'' ''200 OK'',
      Call_SetPair ''caller'' ''program/file:32'',
      Call_Info ''generic info'' [],
      Call_Warn ''this is a warning'' [],
      Call_Set (Obj_JPair (NewJPair ''response'' ''404 Not Found'')),
      Call_SetPair ''caller'' ''program/file:64'',
      Call_Error ''this is an error'',
      Call_Info ''more generic info'' [],
      Call_PrettyPrint (\<lambda>layout. ''now'') (\<lambda>doc. True)]
     (New, \<lparr>writes = [], rendered = []\<rparr>))))
   = [''{"time": "2023-08-10 9:20:27.067pm -04", "level": "ERROR", ''
      @ ''"error": "this is an error", "caller": "program/file:64", ''
      @ ''"msgs": ["generic info", "this is a warning", "more generic info"], ''
      @ ''"request": {"method": "GET", "remote_ip": "192.0.2.1", "url": "/ping"}, ''
      @ ''"response": "404 Not Found"}'']\<close>
  by code_simp

section \<open>Properties of the locking\<close>

text \<open>The methods that lock hold the lock for all they do.\<close>

lemma locking_methods_hold_lock:
  "holds_lock (Call_Get k)" "holds_lock (Call_Pop k)" "holds_lock (Call_SetPair key val)"
  "holds_lock (Call_Set elem)" "holds_lock (Call_SetOutput wr)" "holds_lock (Call_SetTime layout)"
  "holds_lock (Call_Info format args)" "holds_lock (Call_Warn format args)"
  "holds_lock (Call_Error err)" "holds_lock (Call_Log f err args)"
  by (simp_all add: holds_lock_def)

lemma move_inv:
  assumes "mutex_inv h1 h2 c" and "move t c = Some c'"
  shows "\<exists>h1' h2'. mutex_inv h1' h2' c'"
proof -
  obtain owner p q where c: "c = (owner, p, q)" by (cases c)
  show ?thesis
  proof (cases "t = 1")
    case True
    with assms c obtain i p' owner' where p: "p = i # p'"
      and a: "after_instr 1 owner i = Some owner'" and c': "c' = (owner', p', q)"
      by (auto split: list.splits option.splits)
    from assms(1) c p a c' show ?thesis
      by (cases i) (auto simp: mutex_inv_def split: if_splits)
  next
    case False
    with assms c obtain i q' owner' where q: "q = i # q'"
      and a: "after_instr 2 owner i = Some owner'" and c': "c' = (owner', p, q')"
      by (auto split: list.splits option.splits)
    from assms(1) c q a c' show ?thesis
      by (cases i) (auto simp: mutex_inv_def split: if_splits)
  qed
qed

lemma exec_inv:
  assumes "mutex_inv h1 h2 c" and "exec sched c = Some c'"
  shows "\<exists>h1' h2'. mutex_inv h1' h2' c'"
  using assms
proof (induction sched arbitrary: h1 h2 c)
  case Nil
  then show ?case by auto
next
  case (Cons t sched)
  from Cons.prems(2) obtain c1 where m: "move t c = Some c1" and e: "exec sched c1 = Some c'"
    by (auto split: option.splits)
  from move_inv [OF Cons.prems(1) m] obtain h1' h2' where "mutex_inv h1' h2' c1" by blast
  from Cons.IH [OF this e] show ?case .
qed

lemma inv_no_race: "mutex_inv h1 h2 c \<Longrightarrow> \<not> race c"
proof -
  assume i: "mutex_inv h1 h2 c"
  obtain owner p q where c: "c = (owner, p, q)" by (cases c)
  show ?thesis
  proof (cases p)
    case Nil
    with c show ?thesis by simp
  next
    case (Cons i1 p')
    note P = Cons
    show ?thesis
    proof (cases q)
      case Nil
      with c P show ?thesis by simp
    next
      case (Cons i2 q')
      with i c P show ?thesis
        by (cases i1; cases i2) (auto simp: mutex_inv_def)
    qed
  qed
qed

text \<open>
  Two methods that hold the lock never race, whatever the schedule: the mutex does its
  work for the methods that take it.
\<close>

lemma mutex_excludes:
  assumes "holds_lock c1" and "holds_lock c2"
    and "exec sched (None, footprint c1, footprint c2) = Some c"
  shows "\<not> race c"
proof -
  have "mutex_inv False False (None, footprint c1, footprint c2)"
    using assms(1,2) by (simp add: mutex_inv_def holds_lock_def)
  from exec_inv [OF this assms(3)] obtain h1 h2 where "mutex_inv h1 h2 c" by blast
  then show ?thesis by (rule inv_no_race)
qed

text \<open>
  C9. \<open>Print\<close>, \<open>PrettyPrint\<close>, \<open>Reset\<close> and the generic \<open>Get[T]\<close> never lock \<open>j.mu\<close>, so it
  is not every operation that runs under the lock. With \<open>Print\<close> in one goroutine and
  \<open>Info\<close> in another, the schedule in which \<open>Info\<close> locks, \<open>Print\<close> goes on to its test of
  the messages and \<open>Info\<close> goes on to its append reaches a data race on \<open>j.msgs\<close>: the
  lock that \<open>Info\<close> holds does not keep \<open>Print\<close> out.
\<close>

theorem Print_outside_lock:
  "\<not> holds_lock (Call_Print clock)
   \<and> \<not> holds_lock (Call_PrettyPrint clock jq)
   \<and> \<not> holds_lock Call_Reset
   \<and> \<not> holds_lock (Call_GetT T k)
   \<and> exec [2, 1, 1, 1] (None, footprint (Call_Print clock), footprint (Call_Info format args))
       = Some (Some 2, [Load F_msgs, Load F_msgs, Load F_objects, Load F_out],
               [Load F_msgs, Store F_msgs, Unlock])
   \<and> exec [2, 1, 1, 1, 2] (None, footprint (Call_Print clock), footprint (Call_Info format args))
       = Some (Some 2, [Load F_msgs, Load F_msgs, Load F_objects, Load F_out],
               [Store F_msgs, Unlock])
   \<and> race (Some 2, [Load F_msgs, Load F_msgs, Load F_objects, Load F_out],
               [Store F_msgs, Unlock])"
  by (simp add: holds_lock_def)

end
